theory Spec2Isabelle
  imports Main
begin

section \<open>The whiteboard's data\<close>

text \<open>
  The model follows \<^verbatim>\<open>src/WorkflowWhiteboard.jsx\<close>. A node is the object the
  file builds in \<^verbatim>\<open>initialNodes\<close>, \<^verbatim>\<open>onDrop\<close> and \<^verbatim>\<open>handleDuplicate\<close>:
  \<^verbatim>\<open>{ id, type, data: { label, type, description, status, config }, position: { x, y } }\<close>.
  Coordinates are JavaScript numbers; the model leaves their type \<open>'n\<close> open and
  uses nothing of it but \<open>+\<close> and numerals, so no statement below rests on exact
  arithmetic. The field \<^verbatim>\<open>id\<close> is \<open>node_id\<close>, the two fields called \<^verbatim>\<open>type\<close>
  are \<open>node_type\<close> (always \<^verbatim>\<open>'customNode'\<close>) and \<open>block_type\<close> (the key into
  \<^verbatim>\<open>nodeTypes\<close>).
\<close>

datatype config_value =
    ConfigString string
  | ConfigArray "config_value list"

type_synonym config = "(string \<times> config_value) list"

record node_data =
  label :: string
  block_type :: string
  description :: string
  status :: string
  config :: config

record 'n position =
  pos_x :: 'n
  pos_y :: 'n

record 'n node =
  node_id :: string
  node_type :: string
  data :: node_data
  position :: "'n position"

text \<open>
  A connection is what the canvas hands to \<^verbatim>\<open>onConnect\<close>; an edge is
  \<^verbatim>\<open>{ ...connection, ...edgeOptions, id }\<close>.
\<close>

datatype MarkerType = Arrow | ArrowClosed

record edge_style =
  strokeWidth :: nat
  stroke :: string

record edge_marker =
  marker_type :: MarkerType
  marker_width :: nat
  marker_height :: nat
  marker_color :: string

record edge_options =
  opt_type :: string
  opt_animated :: bool
  opt_style :: edge_style
  opt_markerEnd :: edge_marker

record connection =
  source :: string
  target :: string
  sourceHandle :: "string option"
  targetHandle :: "string option"

record edge = connection +
  edge_type :: string
  animated :: bool
  style :: edge_style
  markerEnd :: edge_marker
  edge_id :: string

definition edgeOptions :: edge_options where
  "edgeOptions =
     \<lparr> opt_type = ''smoothstep'', opt_animated = True,
       opt_style = \<lparr> strokeWidth = 2, stroke = ''#64748b'' \<rparr>,
       opt_markerEnd = \<lparr> marker_type = ArrowClosed, marker_width = 20,
                         marker_height = 20, marker_color = ''#64748b'' \<rparr> \<rparr>"

text \<open>
  What \<^verbatim>\<open>localStorage\<close> holds under a key is a text. \<^verbatim>\<open>handleLoad\<close> tells these
  texts apart: the empty string; a text that \<^verbatim>\<open>JSON.parse\<close> rejects; the text
  \<^verbatim>\<open>null\<close>; the text of another JSON value that is no object (a number, a string, a
  boolean, an array), which has neither a \<^verbatim>\<open>nodes\<close> nor an \<^verbatim>\<open>edges\<close> property; and the
  text of an object. Of an object the model keeps the two properties the load reads
  and the timestamp the save writes. A property is missing, or holds a falsy value
  (\<^verbatim>\<open>null\<close>, \<^verbatim>\<open>false\<close>, \<^verbatim>\<open>0\<close>, the empty string), or an array of items, or some
  other, truthy value that is no array. \<^verbatim>\<open>JSON.stringify\<close> followed by
  \<^verbatim>\<open>JSON.parse\<close> is taken to give an object back as it was.
\<close>

datatype 'a json_field = Missing | Falsy | Items "'a list" | Truthy

record 'n workflow =
  wf_nodes :: "'n node json_field"
  wf_edges :: "edge json_field"
  wf_timestamp :: string

datatype 'n stored_text =
    Blank
  | NotJson
  | JsonNull
  | JsonScalar
  | JsonObject "'n workflow"

text \<open>
  The state of one page: the three \<^verbatim>\<open>useState\<close> cells of \<^verbatim>\<open>Flow\<close>, the module
  variable \<^verbatim>\<open>nodeIdCounter\<close> and the browser's \<^verbatim>\<open>localStorage\<close> (\<open>None\<close> for a key
  that holds nothing).
\<close>

record 'n flow_state =
  nodes :: "'n node list"
  edges :: "edge list"
  selectedNodes :: "string list"
  nodeIdCounter :: nat
  localStorage :: "string \<Rightarrow> 'n stored_text option"

definition initialNodes :: "'n::numeral node list" where
  "initialNodes =
     [ \<lparr> node_id = ''node-1'', node_type = ''customNode'',
         data = \<lparr> label = ''Deploy Contract'', block_type = ''Deploy'',
                  description = ''Deploy smart contract to blockchain'',
                  status = ''idle'',
                  config = [(''network'', ConfigString ''ethereum''),
                            (''gasLimit'', ConfigString ''3000000'')] \<rparr>,
         position = \<lparr> pos_x = 100, pos_y = 100 \<rparr> \<rparr>,
       \<lparr> node_id = ''node-2'', node_type = ''customNode'',
         data = \<lparr> label = ''Initialize Storage'', block_type = ''Constructor'',
                  description = ''Set initial contract state'',
                  status = ''idle'',
                  config = [(''params'', ConfigArray [ConfigString ''owner'',
                                                      ConfigString ''totalSupply''])] \<rparr>,
         position = \<lparr> pos_x = 400, pos_y = 100 \<rparr> \<rparr> ]"

text \<open>
  A page that has just been opened: \<^verbatim>\<open>useState(initialNodes)\<close>, \<^verbatim>\<open>useState([])\<close>
  twice, \<^verbatim>\<open>let nodeIdCounter = 3\<close>, and whatever \<^verbatim>\<open>localStorage\<close> kept from
  earlier pages.
\<close>

definition initial_state ::
  "(string \<Rightarrow> 'n stored_text option) \<Rightarrow> 'n::numeral flow_state" where
  "initial_state storage =
     \<lparr> nodes = initialNodes, edges = [], selectedNodes = [],
       nodeIdCounter = 3, localStorage = storage \<rparr>"

section \<open>The identifier generator\<close>

text \<open>
  \<^verbatim>\<open>const getNodeId = () => `node-${nodeIdCounter++}`\<close>. The counter is a
  JavaScript number holding a natural number: the template prints it in decimal, and
  \<^verbatim>\<open>++\<close> adds one exactly below \<open>2^53\<close> and leaves \<open>2^53\<close> as it is (the sum rounds
  back to it).
\<close>

definition digit_char :: "nat \<Rightarrow> char" where
  "digit_char d = ''0123456789'' ! d"

function decimal :: "nat \<Rightarrow> string" where
  "decimal n = (if n < 10 then [digit_char n] else decimal (n div 10) @ [digit_char (n mod 10)])"
  by pat_completeness auto
termination
  by (relation "measure (\<lambda>n. n)") auto

declare decimal.simps [simp del]

definition increment :: "nat \<Rightarrow> nat" where
  "increment c = (if c < 2 ^ 53 then c + 1 else c)"

definition node_name :: "nat \<Rightarrow> string" where
  "node_name c = ''node-'' @ decimal c"

definition getNodeId :: "'n flow_state \<Rightarrow> string \<times> 'n flow_state" where
  "getNodeId st =
     (node_name (nodeIdCounter st), st\<lparr> nodeIdCounter := increment (nodeIdCounter st) \<rparr>)"

section \<open>How a call ends\<close>

text \<open>
  The handlers are arrow functions whose bodies are blocks without a
  \<^verbatim>\<open>return\<close> of a value: a call that ends gives \<^verbatim>\<open>undefined\<close>. \<open>js_value\<close> is what
  a call could give; \<open>failure\<close> is how a load can go wrong: \<^verbatim>\<open>JSON.parse\<close> throws a
  \<^verbatim>\<open>SyntaxError\<close>, taking the properties of \<^verbatim>\<open>null\<close> throws a \<^verbatim>\<open>TypeError\<close>, and
  \<open>NotAnArray\<close> stands for a load that hands the canvas a value that is no array in
  place of a list.
\<close>

datatype 'a js_value = Undefined | Null | Object 'a

datatype failure = SyntaxError | TypeError | NotAnArray

section \<open>The store of the canvas\<close>

text \<open>
  Modelled from the spec: the store behind \<^verbatim>\<open>useReactFlow\<close> belongs to the
  \<^verbatim>\<open>reactflow\<close> package, whose code is not among the sources. The specification has
  the nodes of a graph keyed by id. The store is filled from Flow's node list, one
  node after the other, each put under its id: a node whose id is already there
  takes the place of the node held under it. \<open>getNodes\<close> gives the nodes the store
  holds and \<open>getNode\<close> the node under an id. The edges the store keeps as the list
  they are. What \<^verbatim>\<open>setNodes\<close> and \<^verbatim>\<open>setEdges\<close> of \<^verbatim>\<open>useReactFlow\<close> are given is
  applied to these and becomes Flow's new list.
\<close>

fun put :: "'n node \<Rightarrow> 'n node list \<Rightarrow> 'n node list" where
  "put v [] = [v]"
| "put v (u # us) = (if node_id u = node_id v then v # us else u # put v us)"

definition getNodes :: "'n flow_state \<Rightarrow> 'n node list" where
  "getNodes st = foldl (\<lambda>held v. put v held) [] (nodes st)"

definition getEdges :: "'n flow_state \<Rightarrow> edge list" where
  "getEdges st = edges st"

definition getNode :: "'n flow_state \<Rightarrow> string \<Rightarrow> 'n node option" where
  "getNode st i = find (\<lambda>v. node_id v = i) (getNodes st)"

section \<open>The actions of a node\<close>

text \<open>
  The actions of \<^verbatim>\<open>CustomNode\<close> work through \<^verbatim>\<open>useReactFlow\<close>. \<^verbatim>\<open>handleDelete\<close> asks
  \<^verbatim>\<open>confirm(...)\<close> first; \<open>confirmed\<close> is the answer.
\<close>

definition handleDelete :: "bool \<Rightarrow> string \<Rightarrow> 'n flow_state \<Rightarrow> 'n flow_state" where
  "handleDelete confirmed i st =
     (if confirmed
      then st\<lparr> nodes := filter (\<lambda>v. node_id v \<noteq> i) (getNodes st),
               edges := filter (\<lambda>e. source e \<noteq> i \<and> target e \<noteq> i) (getEdges st) \<rparr>
      else st)"

definition handleDuplicate :: "string \<Rightarrow> 'n::numeral flow_state \<Rightarrow> 'n flow_state" where
  "handleDuplicate i st =
     (case getNode st i of
        None \<Rightarrow> st
      | Some currentNode \<Rightarrow>
          (let (newId, st1) = getNodeId st;
               newNode = currentNode
                 \<lparr> node_id := newId,
                   position := \<lparr> pos_x = pos_x (position currentNode) + 50,
                                 pos_y = pos_y (position currentNode) + 50 \<rparr>,
                   data := (data currentNode)
                             \<lparr> label := label (data currentNode) @ '' (Copy)'' \<rparr> \<rparr>
           in st1\<lparr> nodes := getNodes st1 @ [newNode] \<rparr>))"


section \<open>The handlers of the canvas\<close>

text \<open>
  The effect on the Delete and Backspace keys; \<open>deleteKey\<close> is what \<^verbatim>\<open>useKeyPress\<close>
  reports.
\<close>

definition deleteKeyEffect :: "bool \<Rightarrow> 'n flow_state \<Rightarrow> 'n flow_state" where
  "deleteKeyEffect deleteKey st =
     (if deleteKey \<and> length (selectedNodes st) > 0
      then st\<lparr> nodes := filter (\<lambda>v. node_id v \<notin> set (selectedNodes st)) (nodes st),
               edges := filter (\<lambda>e. source e \<notin> set (selectedNodes st)
                                    \<and> target e \<notin> set (selectedNodes st)) (edges st),
               selectedNodes := [] \<rparr>
      else st)"

definition onSelectionChange :: "'n node list \<Rightarrow> 'n flow_state \<Rightarrow> 'n flow_state" where
  "onSelectionChange sel st = st\<lparr> selectedNodes := map node_id sel \<rparr>"

text \<open>
  Modelled from the spec: \<^verbatim>\<open>addEdge\<close> is imported from the \<^verbatim>\<open>reactflow\<close> package,
  whose code is not among the sources. The specification says of it that an edge
  whose derived id already exists is a no-op insert (no duplicate), and that
  otherwise the new edge is created.
\<close>

definition addEdge :: "edge \<Rightarrow> edge list \<Rightarrow> edge list" where
  "addEdge e eds = (if edge_id e \<in> set (map edge_id eds) then eds else eds @ [e])"

definition edge_name :: "string \<Rightarrow> string \<Rightarrow> string" where
  "edge_name s t = ''edge-'' @ s @ ''-'' @ t"

definition new_edge :: "connection \<Rightarrow> edge" where
  "new_edge c =
     \<lparr> source = source c, target = target c,
       sourceHandle = sourceHandle c, targetHandle = targetHandle c,
       edge_type = opt_type edgeOptions, animated = opt_animated edgeOptions,
       style = opt_style edgeOptions, markerEnd = opt_markerEnd edgeOptions,
       edge_id = edge_name (source c) (target c) \<rparr>"

definition onConnect :: "connection \<Rightarrow> 'n flow_state \<Rightarrow> 'n flow_state" where
  "onConnect c st = st\<lparr> edges := addEdge (new_edge c) (edges st) \<rparr>"

definition onConnect_returns :: "connection \<Rightarrow> 'n flow_state \<Rightarrow> edge js_value" where
  "onConnect_returns c st = Undefined"

text \<open>
  Dragging from the palette: \<^verbatim>\<open>onDragStart\<close> stores the JSON text of a payload under
  the format \<^verbatim>\<open>'application/reactflow'\<close>. A transfer holds, for a format, the empty
  string or such a text (kept as the payload it denotes); \<^verbatim>\<open>getData\<close> answers the
  empty string for a format that holds nothing.
\<close>

record drag_payload =
  payload_type :: string
  payload_label :: string
  payload_nodeType :: string

datatype transfer_text = EmptyText | PayloadText drag_payload

record 'n drop_event =
  dataTransfer :: "string \<Rightarrow> transfer_text option"
  clientX :: 'n
  clientY :: 'n

definition onDragStart ::
  "string \<Rightarrow> (string \<Rightarrow> transfer_text option) \<Rightarrow> (string \<Rightarrow> transfer_text option)" where
  "onDragStart nodeType dt =
     dt(''application/reactflow'' \<mapsto>
          PayloadText \<lparr> payload_type = ''customNode'',
                        payload_label = ''New '' @ nodeType,
                        payload_nodeType = nodeType \<rparr>)"

definition getData :: "(string \<Rightarrow> transfer_text option) \<Rightarrow> string \<Rightarrow> transfer_text" where
  "getData dt format = (case dt format of None \<Rightarrow> EmptyText | Some t \<Rightarrow> t)"

text \<open>
  \<^verbatim>\<open>screenToFlowPosition\<close> belongs to the canvas and depends on its viewport; it is a
  parameter.
\<close>

definition onDrop ::
  "('n position \<Rightarrow> 'n position) \<Rightarrow> 'n drop_event \<Rightarrow> 'n flow_state \<Rightarrow> 'n flow_state" where
  "onDrop screenToFlowPosition event st =
     (case getData (dataTransfer event) ''application/reactflow'' of
        EmptyText \<Rightarrow> st
      | PayloadText p \<Rightarrow>
          (let pos = screenToFlowPosition \<lparr> pos_x = clientX event, pos_y = clientY event \<rparr>;
               (newId, st1) = getNodeId st;
               newNode = \<lparr> node_id = newId, node_type = ''customNode'',
                           data = \<lparr> label = payload_label p,
                                    block_type = payload_nodeType p,
                                    description = payload_nodeType p @ '' node'',
                                    status = ''idle'', config = [] \<rparr>,
                           position = pos \<rparr>
           in st1\<lparr> nodes := nodes st1 @ [newNode] \<rparr>))"

text \<open>
  Saving, loading and clearing. \<open>now\<close> is \<^verbatim>\<open>new Date().toISOString()\<close>; \<open>confirmed\<close>
  is the answer to \<^verbatim>\<open>confirm(...)\<close>. \<^verbatim>\<open>handleSave\<close> writes what \<^verbatim>\<open>getNodes()\<close> and
  \<^verbatim>\<open>getEdges()\<close> give.
\<close>

definition handleSave :: "string \<Rightarrow> 'n flow_state \<Rightarrow> 'n flow_state" where
  "handleSave now st =
     st\<lparr> localStorage := (localStorage st)(''workflow'' \<mapsto>
            JsonObject \<lparr> wf_nodes = Items (getNodes st), wf_edges = Items (getEdges st),
                         wf_timestamp = now \<rparr>) \<rparr>"

text \<open>
  \<open>or_empty\<close> is \<^verbatim>\<open>saved || []\<close>. \<^verbatim>\<open>handleLoad\<close> does nothing when the key holds
  nothing or the empty string (\<^verbatim>\<open>if (saved)\<close>), throws before it sets anything when
  the text is no JSON or is \<^verbatim>\<open>null\<close>, and otherwise sets both lists; a truthy value
  that is no array is handed on as it is, which no list of the state can hold.
  \<open>handleLoad_returns\<close> is the value of a call that does not throw.
\<close>

fun or_empty :: "'a json_field \<Rightarrow> failure + 'a list" where
  "or_empty Missing = Inr []"
| "or_empty Falsy = Inr []"
| "or_empty (Items xs) = Inr xs"
| "or_empty Truthy = Inl NotAnArray"

definition setBoth ::
  "'n node json_field \<Rightarrow> edge json_field \<Rightarrow> 'n flow_state \<Rightarrow> failure + 'n flow_state" where
  "setBoth savedNodes savedEdges st =
     (case or_empty savedNodes of
        Inl f \<Rightarrow> Inl f
      | Inr ns \<Rightarrow>
          (case or_empty savedEdges of
             Inl f \<Rightarrow> Inl f
           | Inr es \<Rightarrow> Inr (st\<lparr> nodes := ns, edges := es \<rparr>)))"

definition handleLoad :: "'n flow_state \<Rightarrow> failure + 'n flow_state" where
  "handleLoad st =
     (case localStorage st ''workflow'' of
        None \<Rightarrow> Inr st
      | Some Blank \<Rightarrow> Inr st
      | Some NotJson \<Rightarrow> Inl SyntaxError
      | Some JsonNull \<Rightarrow> Inl TypeError
      | Some JsonScalar \<Rightarrow> setBoth Missing Missing st
      | Some (JsonObject saved) \<Rightarrow> setBoth (wf_nodes saved) (wf_edges saved) st)"

definition handleLoad_returns :: "'n flow_state \<Rightarrow> 'n flow_state js_value" where
  "handleLoad_returns st = Undefined"

definition handleClear :: "bool \<Rightarrow> 'n flow_state \<Rightarrow> 'n flow_state" where
  "handleClear confirmed st = (if confirmed then st\<lparr> nodes := [], edges := [] \<rparr> else st)"

section \<open>Well-formed graphs\<close>

text \<open>
  The invariants the specification asks of a graph, as predicates on the state.
  \<open>endpoints_present\<close>: every edge starts and ends at a node of the graph.
\<close>

definition node_ids :: "'n flow_state \<Rightarrow> string set" where
  "node_ids st = node_id ` set (nodes st)"

definition endpoints_present :: "'n flow_state \<Rightarrow> bool" where
  "endpoints_present st =
     (\<forall>e \<in> set (edges st). source e \<in> node_ids st \<and> target e \<in> node_ids st)"

text \<open>
  \<open>generated_id\<close>: the string has the shape of a generated node id, \<^verbatim>\<open>node-\<close> and
  then digits. \<open>ids_issued\<close>: every node id of the graph is one the generator has
  given out on this page (its number is below the counter); the counter starts at 3
  so that this holds of \<^verbatim>\<open>initialNodes\<close>.
\<close>

definition generated_id :: "string \<Rightarrow> bool" where
  "generated_id s = (take 5 s = ''node-'' \<and> set (drop 5 s) \<subseteq> set ''0123456789'')"

definition ids_issued :: "'n flow_state \<Rightarrow> bool" where
  "ids_issued st =
     (\<forall>v \<in> set (nodes st). \<exists>k < nodeIdCounter st. node_id v = node_name k)"

text \<open>
  The specification has the id of an edge unique and derived from the edge's source
  and target, a collision of derived ids meaning the same pair. \<open>edges_keyed\<close>: the
  edge ids of the graph are pairwise distinct and each is the id derived from the
  edge's endpoints. \<open>collision_free\<close>: an edge of the graph whose endpoints give the
  same derived id as the connection joins the same pair.
\<close>

definition edges_keyed :: "'n flow_state \<Rightarrow> bool" where
  "edges_keyed st =
     (distinct (map edge_id (edges st))
      \<and> (\<forall>e \<in> set (edges st). edge_id e = edge_name (source e) (target e)))"

definition collision_free :: "'n flow_state \<Rightarrow> connection \<Rightarrow> bool" where
  "collision_free st c =
     (\<forall>e \<in> set (edges st).
        edge_name (source e) (target e) = edge_name (source c) (target c)
          \<longrightarrow> source e = source c \<and> target e = target c)"

section \<open>Sample sessions\<close>

text \<open>Concrete inputs for the examples below, with integer coordinates.\<close>

definition no_storage :: "string \<Rightarrow> int stored_text option" where
  "no_storage = (\<lambda>key. None)"

definition fresh_page :: "int flow_state" where
  "fresh_page = initial_state no_storage"

definition link_1_2 :: connection where
  "link_1_2 = \<lparr> source = ''node-1'', target = ''node-2'',
                 sourceHandle = None, targetHandle = None \<rparr>"

definition link_7_8 :: connection where
  "link_7_8 = \<lparr> source = ''node-7'', target = ''node-8'',
                 sourceHandle = None, targetHandle = None \<rparr>"

definition swap_drop :: "int drop_event" where
  "swap_drop = \<lparr> dataTransfer = onDragStart ''Swap'' (\<lambda>format. None),
                  clientX = 250, clientY = 300 \<rparr>"

definition bare_drop :: "int drop_event" where
  "bare_drop = \<lparr> dataTransfer = (\<lambda>format. None), clientX = 250, clientY = 300 \<rparr>"

definition blank_drop :: "int drop_event" where
  "blank_drop = \<lparr> dataTransfer = [''application/reactflow'' \<mapsto> EmptyText],
                   clientX = 250, clientY = 300 \<rparr>"

text \<open>
  A page on which the two initial nodes are connected; the same page with the
  selection put on the first node.
\<close>

definition linked_page :: "int flow_state" where
  "linked_page = onConnect link_1_2 fresh_page"

definition selected_page :: "int flow_state" where
  "selected_page = onSelectionChange [hd initialNodes] linked_page"

text \<open>
  \<open>after_load\<close> is the page after a click on the load button: the loaded page, or
  the page as it was when the load went wrong.
\<close>

definition after_load :: "'n flow_state \<Rightarrow> 'n flow_state" where
  "after_load st = (case handleLoad st of Inl f \<Rightarrow> st | Inr st' \<Rightarrow> st')"

text \<open>
  Two pages in a row. On the first a block is dropped (it becomes \<^verbatim>\<open>node-3\<close>) and
  the workflow is saved. The second is a newly opened page over the same storage, on
  which the workflow is loaded.
\<close>

definition first_page :: "int flow_state" where
  "first_page = handleSave ''2025-01-01T00:00:00.000Z'' (onDrop (\<lambda>p. p) swap_drop fresh_page)"

definition second_page :: "int flow_state" where
  "second_page = after_load (initial_state (localStorage first_page))"

text \<open>
  The second page after its first node has been duplicated: the copy is a second
  \<^verbatim>\<open>node-3\<close>.
\<close>

definition twice_page :: "int flow_state" where
  "twice_page = handleDuplicate ''node-1'' second_page"

text \<open>A page whose canvas has been cleared: no node and no edge.\<close>

definition cleared_page :: "int flow_state" where
  "cleared_page = handleClear True fresh_page"

text \<open>
  Stored texts and pages over them: objects that lack one of the two collections,
  an object whose \<^verbatim>\<open>nodes\<close> is a number, the text \<^verbatim>\<open>null\<close>, and a text that is no
  JSON.
\<close>

definition without_nodes :: "int workflow" where
  "without_nodes = \<lparr> wf_nodes = Missing, wf_edges = Items [new_edge link_1_2],
                      wf_timestamp = ''2025-01-01T00:00:00.000Z'' \<rparr>"

definition without_edges :: "int workflow" where
  "without_edges = \<lparr> wf_nodes = Items [hd initialNodes], wf_edges = Falsy,
                      wf_timestamp = ''2025-01-01T00:00:00.000Z'' \<rparr>"

definition number_for_nodes :: "int workflow" where
  "number_for_nodes = \<lparr> wf_nodes = Truthy, wf_edges = Items [],
                         wf_timestamp = ''2025-01-01T00:00:00.000Z'' \<rparr>"

definition page_over :: "int stored_text \<Rightarrow> int flow_state" where
  "page_over text = linked_page \<lparr> localStorage := [''workflow'' \<mapsto> text] \<rparr>"

text \<open>
  A stored workflow that holds two edges from \<^verbatim>\<open>node-1\<close> to \<^verbatim>\<open>node-2\<close>, the second
  under an id of its own, and the page that has loaded it.
\<close>

definition doubled_workflow :: "int workflow" where
  "doubled_workflow =
     \<lparr> wf_nodes = Items initialNodes,
       wf_edges = Items [new_edge link_1_2, (new_edge link_1_2)\<lparr> edge_id := ''edge-copy'' \<rparr>],
       wf_timestamp = ''2025-01-01T00:00:00.000Z'' \<rparr>"

definition doubled_page :: "int flow_state" where
  "doubled_page = after_load (initial_state [''workflow'' \<mapsto> JsonObject doubled_workflow])"

section \<open>Properties\<close>

subsection \<open>Decimal numerals\<close>

lemma digit_char_inj: "a < 10 \<Longrightarrow> b < 10 \<Longrightarrow> digit_char a = digit_char b \<Longrightarrow> a = b"
proof -
  assume a: "a < 10" and b: "b < 10" and e: "digit_char a = digit_char b"
  have d: "distinct ''0123456789''" by simp
  have "length ''0123456789'' = 10" by simp
  with a b e d show "a = b"
    unfolding digit_char_def by (simp only: nth_eq_iff_index_eq)
qed

lemma digit_char_is_digit: "d < 10 \<Longrightarrow> digit_char d \<in> set ''0123456789''"
proof -
  assume "d < 10"
  then have "d < length ''0123456789''" by simp
  then show ?thesis unfolding digit_char_def by (rule nth_mem)
qed

lemma decimal_nonempty: "decimal n \<noteq> []"
  by (subst decimal.simps) simp

lemma decimal_digits: "set (decimal n) \<subseteq> set ''0123456789''"
proof (induction n rule: decimal.induct)
  case (1 n)
  show ?case
  proof (cases "n < 10")
    case True
    then show ?thesis using digit_char_is_digit [of n] by (subst decimal.simps) simp
  next
    case False
    have "n mod 10 < 10" by simp
    then have "digit_char (n mod 10) \<in> set ''0123456789''" by (rule digit_char_is_digit)
    with False "1.IH" show ?thesis by (subst decimal.simps) simp
  qed
qed

lemma decimal_inj: "decimal n = decimal m \<Longrightarrow> n = m"
proof (induction n arbitrary: m rule: decimal.induct)
  case (1 n)
  show ?case
  proof (cases "n < 10")
    case n: True
    show ?thesis
    proof (cases "m < 10")
      case True
      with n "1.prems" have "digit_char n = digit_char m"
        by (simp add: decimal.simps [of n] decimal.simps [of m])
      with n True show ?thesis by (rule digit_char_inj)
    next
      case False
      with n "1.prems" have "[digit_char n] = decimal (m div 10) @ [digit_char (m mod 10)]"
        by (simp add: decimal.simps [of n] decimal.simps [of m])
      then have "decimal (m div 10) = []" by simp
      then show ?thesis by (simp add: decimal_nonempty)
    qed
  next
    case n: False
    show ?thesis
    proof (cases "m < 10")
      case True
      with n "1.prems" have "decimal (n div 10) @ [digit_char (n mod 10)] = [digit_char m]"
        by (simp add: decimal.simps [of n] decimal.simps [of m])
      then have "decimal (n div 10) = []" by simp
      then show ?thesis by (simp add: decimal_nonempty)
    next
      case False
      with n "1.prems" have e: "decimal (n div 10) @ [digit_char (n mod 10)]
          = decimal (m div 10) @ [digit_char (m mod 10)]"
        by (simp add: decimal.simps [of n] decimal.simps [of m])
      then have "decimal (n div 10) = decimal (m div 10)" by simp
      with n "1.IH" have q: "n div 10 = m div 10" by simp
      from e have "digit_char (n mod 10) = digit_char (m mod 10)" by simp
      then have r: "n mod 10 = m mod 10" by (intro digit_char_inj) simp_all
      from q r show ?thesis by (metis div_mult_mod_eq)
    qed
  qed
qed

lemma node_name_inj: "node_name a = node_name b \<Longrightarrow> a = b"
  by (simp add: node_name_def decimal_inj)

lemma generated_node_name: "generated_id (node_name k)"
  using decimal_digits [of k] by (simp add: generated_id_def node_name_def)

subsection \<open>Strings that name nodes and edges\<close>

lemma split_at_separator:
  "c \<notin> set xs \<Longrightarrow> c \<notin> set xs' \<Longrightarrow> xs @ c # ys = xs' @ c # ys' \<Longrightarrow> xs = xs' \<and> ys = ys'"
proof (induction xs arbitrary: xs')
  case Nil
  then show ?case by (cases xs') auto
next
  case (Cons x xs)
  then show ?case by (cases xs') auto
qed

lemma generated_id_split: "generated_id s \<Longrightarrow> \<exists>d. s = ''node-'' @ d \<and> CHR ''-'' \<notin> set d"
proof -
  assume g: "generated_id s"
  then have "s = ''node-'' @ drop 5 s"
    by (metis append_take_drop_id generated_id_def)
  moreover from g have "CHR ''-'' \<notin> set (drop 5 s)"
    by (auto simp: generated_id_def)
  ultimately show ?thesis by blast
qed

lemma edge_name_inj:
  assumes "generated_id a" and "generated_id a'" and "edge_name a b = edge_name a' b'"
  shows "a = a' \<and> b = b'"
proof -
  from assms(1) obtain d where d: "a = ''node-'' @ d" "CHR ''-'' \<notin> set d"
    using generated_id_split by blast
  from assms(2) obtain d' where d': "a' = ''node-'' @ d'" "CHR ''-'' \<notin> set d'"
    using generated_id_split by blast
  from assms(3) d(1) d'(1) have "d @ CHR ''-'' # b = d' @ CHR ''-'' # b'"
    by (simp add: edge_name_def)
  with d(2) d'(2) have "d = d' \<and> b = b'" by (rule split_at_separator)
  with d(1) d'(1) show ?thesis by simp
qed

lemma one_with_key:
  "distinct (map f xs) \<Longrightarrow> i \<in> f ` set xs \<Longrightarrow> length (filter (\<lambda>x. f x = i) xs) = 1"
proof (induction xs)
  case Nil
  then show ?case by simp
next
  case (Cons x xs)
  show ?case
  proof (cases "f x = i")
    case True
    with Cons.prems have "i \<notin> f ` set xs" by simp
    then have "\<forall>y \<in> set xs. f y \<noteq> i" by blast
    then have "filter (\<lambda>x. f x = i) xs = []" by (simp add: filter_empty_conv)
    with True show ?thesis by simp
  next
    case False
    with Cons show ?thesis by auto
  qed
qed

lemma addEdge_idem: "addEdge e (addEdge e eds) = addEdge e eds"
  by (simp add: addEdge_def)

lemma addEdge_has_id: "edge_id e \<in> edge_id ` set (addEdge e eds)"
  by (simp add: addEdge_def)

lemma addEdge_distinct: "distinct (map edge_id eds) \<Longrightarrow> distinct (map edge_id (addEdge e eds))"
  by (simp add: addEdge_def)

lemma addEdge_set: "set (addEdge e eds) \<subseteq> insert e (set eds)"
  by (auto simp: addEdge_def)

lemma new_edge_fields:
  "source (new_edge c) = source c" "target (new_edge c) = target c"
  "edge_id (new_edge c) = edge_name (source c) (target c)"
  by (simp_all add: new_edge_def)

subsection \<open>Ids given out on one page\<close>

lemma node_name_3: "node_name 3 = ''node-3''"
  by (simp add: node_name_def decimal.simps digit_char_def)

lemma fresh_id:
  assumes "ids_issued st"
  shows "node_name (nodeIdCounter st) \<notin> node_ids st"
proof
  assume "node_name (nodeIdCounter st) \<in> node_ids st"
  then obtain v where v: "v \<in> set (nodes st)" "node_id v = node_name (nodeIdCounter st)"
    by (auto simp: node_ids_def)
  from assms v(1) obtain k where k: "k < nodeIdCounter st" "node_id v = node_name k"
    by (auto simp: ids_issued_def)
  from v(2) k(2) have "nodeIdCounter st = k" by (intro node_name_inj) simp
  with k(1) show False by simp
qed

lemma ids_issued_initial: "ids_issued (initial_state storage)"
proof -
  have "node_name 1 = ''node-1''" "node_name 2 = ''node-2''"
    by (simp_all add: node_name_def decimal.simps digit_char_def)
  then have "(1::nat) < 3 \<and> ''node-1'' = node_name 1" "(2::nat) < 3 \<and> ''node-2'' = node_name 2"
    by simp_all
  then have "\<exists>k<3. ''node-1'' = node_name k" "\<exists>k<3. ''node-2'' = node_name k"
    by blast+
  then show ?thesis
    by (simp add: ids_issued_def initial_state_def initialNodes_def)
qed

lemma ids_issued_append:
  assumes "ids_issued st" and "nodeIdCounter st < 2 ^ 53"
    and "nodes st' = nodes st @ [w]" and "node_id w = node_name (nodeIdCounter st)"
    and "nodeIdCounter st' = increment (nodeIdCounter st)"
  shows "ids_issued st'"
proof -
  from assms(2,5) have c: "nodeIdCounter st' = Suc (nodeIdCounter st)"
    by (simp add: increment_def)
  have "\<exists>k < Suc (nodeIdCounter st). node_id v = node_name k" if "v \<in> set (nodes st @ [w])" for v
  proof (cases "v = w")
    case True
    with assms(4) show ?thesis by blast
  next
    case False
    with that have "v \<in> set (nodes st)" by simp
    with assms(1) obtain k where "k < nodeIdCounter st" "node_id v = node_name k"
      by (auto simp: ids_issued_def)
    then show ?thesis using less_Suc_eq by blast
  qed
  then show ?thesis
    unfolding ids_issued_def assms(3) c by blast
qed


subsection \<open>The store of the canvas\<close>

lemma put_ids:
  "map node_id (put v held)
     = (if node_id v \<in> node_id ` set held then map node_id held
        else map node_id held @ [node_id v])"
  by (induction held) auto

lemma put_fresh: "node_id v \<notin> node_id ` set held \<Longrightarrow> put v held = held @ [v]"
  by (induction held) auto


lemma fill_distinct:
  "distinct (map node_id (held @ ns)) \<Longrightarrow> foldl (\<lambda>held v. put v held) held ns = held @ ns"
proof (induction ns arbitrary: held)
  case Nil
  then show ?case by simp
next
  case (Cons v ns)
  from Cons.prems have "node_id v \<notin> node_id ` set held" by auto
  then have p: "put v held = held @ [v]" by (rule put_fresh)
  from Cons.prems have "distinct (map node_id ((held @ [v]) @ ns))" by simp
  then have "foldl (\<lambda>held v. put v held) (held @ [v]) ns = (held @ [v]) @ ns"
    by (rule Cons.IH)
  with p show ?case by simp
qed

lemma fill_keeps_distinct:
  "distinct (map node_id held) \<Longrightarrow> distinct (map node_id (foldl (\<lambda>held v. put v held) held ns))"
proof (induction ns arbitrary: held)
  case Nil
  then show ?case by simp
next
  case (Cons v ns)
  from Cons.prems have "distinct (map node_id (put v held))"
    by (simp add: put_ids)
  then show ?case using Cons.IH by simp
qed

lemma fill_ids:
  "node_id ` set (foldl (\<lambda>held v. put v held) held ns) = node_id ` set held \<union> node_id ` set ns"
proof (induction ns arbitrary: held)
  case Nil
  then show ?case by simp
next
  case (Cons v ns)
  have "set (map node_id (put v held)) = insert (node_id v) (node_id ` set held)"
    by (simp add: put_ids insert_absorb)
  then have "node_id ` set (put v held) = insert (node_id v) (node_id ` set held)"
    by simp
  with Cons.IH [of "put v held"] show ?case by auto
qed


lemma getNodes_distinct: "distinct (map node_id (nodes st)) \<Longrightarrow> getNodes st = nodes st"
  using fill_distinct [of "[]" "nodes st"] by (simp add: getNodes_def)

lemma distinct_getNodes: "distinct (map node_id (getNodes st))"
  using fill_keeps_distinct [of "[]" "nodes st"] by (simp add: getNodes_def)

lemma getNodes_ids: "node_id ` set (getNodes st) = node_ids st"
  using fill_ids [of "[]" "nodes st"] by (simp add: getNodes_def node_ids_def)


lemma getNodes_of_held:
  "nodes st' = filter P (getNodes st) \<Longrightarrow> getNodes st' = nodes st'"
proof -
  assume n: "nodes st' = filter P (getNodes st)"
  have "distinct (map node_id (filter P (getNodes st)))"
    using distinct_getNodes [of st] by (simp add: distinct_map_filter)
  with n show ?thesis by (simp add: getNodes_distinct)
qed



lemma onDrop_nodes:
  "nodes (onDrop screenToFlowPosition event st) = nodes st
   \<or> (\<exists>w. nodes (onDrop screenToFlowPosition event st) = nodes st @ [w]
          \<and> node_id w = node_name (nodeIdCounter st)
          \<and> nodeIdCounter (onDrop screenToFlowPosition event st) = increment (nodeIdCounter st))"
  by (simp add: onDrop_def getNodeId_def split: transfer_text.split)

lemma ids_issued_onDrop:
  assumes "ids_issued st" and "nodeIdCounter st < 2 ^ 53"
  shows "ids_issued (onDrop screenToFlowPosition event st)"
proof (cases "getData (dataTransfer event) ''application/reactflow''")
  case EmptyText
  with assms(1) show ?thesis by (simp add: onDrop_def)
next
  case (PayloadText p)
  then obtain w where "nodes (onDrop screenToFlowPosition event st) = nodes st @ [w]"
    "node_id w = node_name (nodeIdCounter st)"
    "nodeIdCounter (onDrop screenToFlowPosition event st) = increment (nodeIdCounter st)"
    by (simp add: onDrop_def getNodeId_def)
  with assms show ?thesis by (rule ids_issued_append)
qed

lemma distinct_onDrop:
  assumes "ids_issued st" and "distinct (map node_id (nodes st))"
  shows "distinct (map node_id (nodes (onDrop screenToFlowPosition event st)))"
proof -
  from fresh_id [OF assms(1)] have "node_name (nodeIdCounter st) \<notin> node_id ` set (nodes st)"
    by (simp add: node_ids_def)
  with assms(2) onDrop_nodes [of screenToFlowPosition event st] show ?thesis
    by auto
qed

subsection \<open>The sample sessions\<close>

lemma fresh_page_fields:
  "nodes fresh_page = initialNodes" "edges fresh_page = []" "selectedNodes fresh_page = []"
  "nodeIdCounter fresh_page = 3" "localStorage fresh_page = no_storage"
  by (simp_all add: fresh_page_def initial_state_def)

lemma fresh_page_ids: "node_ids fresh_page = {''node-1'', ''node-2''}"
  by (simp add: node_ids_def fresh_page_fields initialNodes_def)


lemma linked_page_fields:
  "nodes linked_page = initialNodes" "edges linked_page = [new_edge link_1_2]"
  "selectedNodes linked_page = []" "nodeIdCounter linked_page = 3"
  "localStorage linked_page = no_storage"
  by (simp_all add: linked_page_def onConnect_def addEdge_def fresh_page_fields)

lemma link_1_2_fields:
  "source (new_edge link_1_2) = ''node-1''" "target (new_edge link_1_2) = ''node-2''"
  "edge_id (new_edge link_1_2) = ''edge-node-1-node-2''"
  by (simp_all add: new_edge_def link_1_2_def edge_name_def)

lemma linked_page_ids: "node_ids linked_page = {''node-1'', ''node-2''}"
  by (simp add: node_ids_def linked_page_fields initialNodes_def)

lemma linked_page_distinct: "distinct (map node_id (nodes linked_page))"
  by (simp add: linked_page_fields initialNodes_def)

lemma endpoints_present_linked_page: "endpoints_present linked_page"
  by (simp add: endpoints_present_def linked_page_fields linked_page_ids link_1_2_fields)

lemma selected_page_fields:
  "nodes selected_page = initialNodes" "edges selected_page = [new_edge link_1_2]"
  "selectedNodes selected_page = [''node-1'']"
  by (simp_all add: selected_page_def onSelectionChange_def linked_page_fields initialNodes_def)

lemma cleared_page_fields: "nodes cleared_page = []" "edges cleared_page = []"
  by (simp_all add: cleared_page_def handleClear_def)

lemma swap_drop_data:
  "getData (dataTransfer swap_drop) ''application/reactflow''
     = PayloadText \<lparr> payload_type = ''customNode'', payload_label = ''New Swap'',
                     payload_nodeType = ''Swap'' \<rparr>"
  by (simp add: swap_drop_def onDragStart_def getData_def)

lemma dropped_page_nodes:
  "nodes (onDrop (\<lambda>p. p) swap_drop fresh_page) = initialNodes @
     [\<lparr> node_id = ''node-3'', node_type = ''customNode'',
        data = \<lparr> label = ''New Swap'', block_type = ''Swap'', description = ''Swap node'',
                 status = ''idle'', config = [] \<rparr>,
        position = \<lparr> pos_x = 250, pos_y = 300 \<rparr> \<rparr>]"
  "edges (onDrop (\<lambda>p. p) swap_drop fresh_page) = []"
  by (simp_all add: onDrop_def swap_drop_data getNodeId_def fresh_page_fields node_name_3,
      simp_all add: swap_drop_def)

lemma first_page_fields:
  "nodes first_page = initialNodes @
     [\<lparr> node_id = ''node-3'', node_type = ''customNode'',
        data = \<lparr> label = ''New Swap'', block_type = ''Swap'', description = ''Swap node'',
                 status = ''idle'', config = [] \<rparr>,
        position = \<lparr> pos_x = 250, pos_y = 300 \<rparr> \<rparr>]"
  "edges first_page = []"
  "localStorage first_page ''workflow''
     = Some (JsonObject \<lparr> wf_nodes = Items (nodes first_page), wf_edges = Items [],
                           wf_timestamp = ''2025-01-01T00:00:00.000Z'' \<rparr>)"
proof -
  let ?dropped = "onDrop (\<lambda>p. p) swap_drop fresh_page"
  have "distinct (map node_id (nodes ?dropped))"
    by (simp add: dropped_page_nodes initialNodes_def)
  then have g: "getNodes ?dropped = nodes ?dropped" by (rule getNodes_distinct)
  show "nodes first_page = initialNodes @
     [\<lparr> node_id = ''node-3'', node_type = ''customNode'',
        data = \<lparr> label = ''New Swap'', block_type = ''Swap'', description = ''Swap node'',
                 status = ''idle'', config = [] \<rparr>,
        position = \<lparr> pos_x = 250, pos_y = 300 \<rparr> \<rparr>]"
    by (simp add: first_page_def handleSave_def dropped_page_nodes)
  show "edges first_page = []"
    by (simp add: first_page_def handleSave_def dropped_page_nodes)
  show "localStorage first_page ''workflow''
     = Some (JsonObject \<lparr> wf_nodes = Items (nodes first_page), wf_edges = Items [],
                           wf_timestamp = ''2025-01-01T00:00:00.000Z'' \<rparr>)"
    by (simp add: first_page_def handleSave_def g getEdges_def dropped_page_nodes(2))
qed

lemma second_page_fields:
  "nodes second_page = nodes first_page" "edges second_page = []"
  "nodeIdCounter second_page = 3"
  by (simp_all add: second_page_def after_load_def handleLoad_def setBoth_def initial_state_def
      first_page_fields(3))

lemma second_page_ids: "map node_id (nodes second_page) = [''node-1'', ''node-2'', ''node-3'']"
  by (simp add: second_page_fields first_page_fields initialNodes_def)

lemma second_page_not_issued: "\<not> ids_issued second_page"
proof
  assume "ids_issued second_page"
  then have "node_name (nodeIdCounter second_page) \<notin> node_ids second_page"
    by (rule fresh_id)
  moreover have "''node-3'' \<in> node_ids second_page"
    using second_page_ids by (simp add: node_ids_def flip: set_map)
  ultimately show False
    by (simp add: second_page_fields(3) node_name_3)
qed

text \<open>
  Where an id is held twice the canvas shows and keeps the later node only: deleting
  another node, or saving, loses the earlier one.
\<close>

lemma twice_page_labels:
  "map node_id (nodes twice_page) = [''node-1'', ''node-2'', ''node-3'', ''node-3'']"
  "map (\<lambda>v. label (data v)) (nodes twice_page)
     = [''Deploy Contract'', ''Initialize Storage'', ''New Swap'', ''Deploy Contract (Copy)'']"
  "map (\<lambda>v. label (data v)) (getNodes twice_page)
     = [''Deploy Contract'', ''Initialize Storage'', ''Deploy Contract (Copy)'']"
  "map (\<lambda>v. label (data v)) (nodes (handleDelete True ''node-2'' twice_page))
     = [''Deploy Contract'', ''Deploy Contract (Copy)'']"
proof -
  have "distinct (map node_id (nodes second_page))"
    by (simp add: second_page_ids)
  then have store: "getNodes second_page = nodes second_page"
    by (rule getNodes_distinct)
  have g: "getNode second_page ''node-1'' = Some (hd initialNodes)"
    by (simp add: getNode_def store second_page_fields first_page_fields initialNodes_def)
  let ?v = "hd initialNodes :: int node"
  have "getNodes (second_page\<lparr> nodeIdCounter := increment 3 \<rparr>) = getNodes second_page"
    by (simp add: getNodes_def)
  then have n: "nodes twice_page = nodes second_page @
      [?v\<lparr> node_id := ''node-3'',
         position := \<lparr> pos_x = pos_x (position ?v) + 50, pos_y = pos_y (position ?v) + 50 \<rparr>,
         data := (data ?v)\<lparr> label := label (data ?v) @ '' (Copy)'' \<rparr> \<rparr>]"
    by (simp add: twice_page_def handleDuplicate_def g getNodeId_def second_page_fields(3) store
        node_name_3)
  then show "map node_id (nodes twice_page) = [''node-1'', ''node-2'', ''node-3'', ''node-3'']"
    and l: "map (\<lambda>v. label (data v)) (nodes twice_page)
     = [''Deploy Contract'', ''Initialize Storage'', ''New Swap'', ''Deploy Contract (Copy)'']"
    by (simp_all add: second_page_fields first_page_fields initialNodes_def)
  from n show s: "map (\<lambda>v. label (data v)) (getNodes twice_page)
     = [''Deploy Contract'', ''Initialize Storage'', ''Deploy Contract (Copy)'']"
    by (simp add: getNodes_def second_page_fields first_page_fields initialNodes_def)
  from n show "map (\<lambda>v. label (data v)) (nodes (handleDelete True ''node-2'' twice_page))
     = [''Deploy Contract'', ''Deploy Contract (Copy)'']"
    by (simp add: handleDelete_def getNodes_def second_page_fields first_page_fields
        initialNodes_def)
qed

subsection \<open>Deleting\<close>

text \<open>
  C1. When the user confirms, \<^verbatim>\<open>handleDelete\<close> for the id \<open>n\<close> keeps the nodes of
  the canvas whose id is not \<open>n\<close> and the edges that neither start nor end at \<open>n\<close>, in
  one transition of the state: afterwards no node has the id \<open>n\<close> and no edge has
  \<open>n\<close> as source or target, every other edge is still there, in order, and nothing
  else of the state changes. If every edge joined two nodes of the graph before,
  that is so afterwards. Deleting \<open>n\<close> a second time changes nothing, in every
  state. In a graph whose node ids are pairwise distinct every other node is still
  there, in order; if no node has the id \<open>n\<close> the node list is unchanged, and the
  whole state is unchanged when moreover no edge names \<open>n\<close>, as is the case in every
  graph whose edges join nodes of the graph.
\<close>

theorem handleDelete_cascade:
  "nodes (handleDelete True n st) = filter (\<lambda>v. node_id v \<noteq> n) (getNodes st)
   \<and> edges (handleDelete True n st) = filter (\<lambda>e. source e \<noteq> n \<and> target e \<noteq> n) (edges st)
   \<and> node_ids (handleDelete True n st) = node_ids st - {n}
   \<and> (\<forall>e \<in> set (edges (handleDelete True n st)). source e \<noteq> n \<and> target e \<noteq> n)
   \<and> (\<forall>e \<in> set (edges st). source e \<noteq> n \<and> target e \<noteq> n
          \<longrightarrow> e \<in> set (edges (handleDelete True n st)))
   \<and> selectedNodes (handleDelete True n st) = selectedNodes st
   \<and> nodeIdCounter (handleDelete True n st) = nodeIdCounter st
   \<and> localStorage (handleDelete True n st) = localStorage st
   \<and> (endpoints_present st \<longrightarrow> endpoints_present (handleDelete True n st))
   \<and> handleDelete True n (handleDelete True n st) = handleDelete True n st
   \<and> (distinct (map node_id (nodes st)) \<longrightarrow>
        nodes (handleDelete True n st) = filter (\<lambda>v. node_id v \<noteq> n) (nodes st)
        \<and> (\<forall>v \<in> set (nodes st). node_id v \<noteq> n \<longrightarrow> v \<in> set (nodes (handleDelete True n st)))
        \<and> (n \<notin> node_ids st \<longrightarrow> nodes (handleDelete True n st) = nodes st)
        \<and> (n \<notin> node_ids st \<and> (\<forall>e \<in> set (edges st). source e \<noteq> n \<and> target e \<noteq> n)
             \<longrightarrow> handleDelete True n st = st)
        \<and> (n \<notin> node_ids st \<and> endpoints_present st \<longrightarrow> handleDelete True n st = st))"
proof -
  let ?st' = "handleDelete True n st"
  have ns: "nodes ?st' = filter (\<lambda>v. node_id v \<noteq> n) (getNodes st)"
    and es: "edges ?st' = filter (\<lambda>e. source e \<noteq> n \<and> target e \<noteq> n) (edges st)"
    and rest: "selectedNodes ?st' = selectedNodes st" "nodeIdCounter ?st' = nodeIdCounter st"
      "localStorage ?st' = localStorage st"
    by (simp_all add: handleDelete_def getEdges_def)
  have ids: "node_ids ?st' = node_ids st - {n}"
    using getNodes_ids [of st] by (auto simp: node_ids_def ns)
  have inv: "endpoints_present ?st'" if "endpoints_present st"
    using that by (auto simp: endpoints_present_def es ids)
  have held: "getNodes ?st' = nodes ?st'"
    using ns by (rule getNodes_of_held)
  have again: "handleDelete True n ?st' = ?st'"
  proof -
    have "filter (\<lambda>v. node_id v \<noteq> n) (getNodes ?st') = nodes ?st'"
      by (simp add: held ns)
    moreover have "filter (\<lambda>e. source e \<noteq> n \<and> target e \<noteq> n) (getEdges ?st') = edges ?st'"
      by (simp add: getEdges_def es)
    ultimately show ?thesis
      by (simp add: handleDelete_def [of True n ?st'])
  qed
  have gone: "\<forall>e \<in> set (edges ?st'). source e \<noteq> n \<and> target e \<noteq> n"
    by (simp add: es)
  have kept: "\<forall>e \<in> set (edges st). source e \<noteq> n \<and> target e \<noteq> n \<longrightarrow> e \<in> set (edges ?st')"
    by (simp add: es)
  have inv': "endpoints_present st \<longrightarrow> endpoints_present ?st'"
    using inv by (rule impI)
  have d: "nodes ?st' = filter (\<lambda>v. node_id v \<noteq> n) (nodes st)
        \<and> (\<forall>v \<in> set (nodes st). node_id v \<noteq> n \<longrightarrow> v \<in> set (nodes ?st'))
        \<and> (n \<notin> node_ids st \<longrightarrow> nodes ?st' = nodes st)
        \<and> (n \<notin> node_ids st \<and> (\<forall>e \<in> set (edges st). source e \<noteq> n \<and> target e \<noteq> n)
             \<longrightarrow> ?st' = st)
        \<and> (n \<notin> node_ids st \<and> endpoints_present st \<longrightarrow> ?st' = st)"
    if dist: "distinct (map node_id (nodes st))"
  proof -
    from dist have g: "getNodes st = nodes st" by (rule getNodes_distinct)
    have n1: "nodes ?st' = filter (\<lambda>v. node_id v \<noteq> n) (nodes st)"
      by (simp add: ns g)
    have absent_nodes: "nodes ?st' = nodes st" if "n \<notin> node_ids st"
      using that by (auto simp: n1 node_ids_def filter_id_conv)
    have unnamed: "?st' = st"
      if "n \<notin> node_ids st" "\<forall>e \<in> set (edges st). source e \<noteq> n \<and> target e \<noteq> n"
    proof -
      from that(2) have "edges ?st' = edges st"
        by (simp add: es filter_id_conv)
      with absent_nodes [OF that(1)] show ?thesis
        by (simp add: handleDelete_def g getEdges_def)
    qed
    have absent: "?st' = st" if "n \<notin> node_ids st" "endpoints_present st"
    proof -
      from that have "\<forall>e \<in> set (edges st). source e \<noteq> n \<and> target e \<noteq> n"
        by (auto simp: endpoints_present_def)
      with that(1) show ?thesis by (rule unnamed)
    qed
    have others: "\<forall>v \<in> set (nodes st). node_id v \<noteq> n \<longrightarrow> v \<in> set (nodes ?st')"
      by (simp add: n1)
    from absent_nodes have a1: "n \<notin> node_ids st \<longrightarrow> nodes ?st' = nodes st"
      by (rule impI)
    from unnamed have a2: "n \<notin> node_ids st
        \<and> (\<forall>e \<in> set (edges st). source e \<noteq> n \<and> target e \<noteq> n) \<longrightarrow> ?st' = st"
      by blast
    from absent have a3: "n \<notin> node_ids st \<and> endpoints_present st \<longrightarrow> ?st' = st"
      by blast
    from n1 others a1 a2 a3 show ?thesis by (intro conjI)
  qed
  then have d': "distinct (map node_id (nodes st)) \<longrightarrow>
        nodes ?st' = filter (\<lambda>v. node_id v \<noteq> n) (nodes st)
        \<and> (\<forall>v \<in> set (nodes st). node_id v \<noteq> n \<longrightarrow> v \<in> set (nodes ?st'))
        \<and> (n \<notin> node_ids st \<longrightarrow> nodes ?st' = nodes st)
        \<and> (n \<notin> node_ids st \<and> (\<forall>e \<in> set (edges st). source e \<noteq> n \<and> target e \<noteq> n)
             \<longrightarrow> ?st' = st)
        \<and> (n \<notin> node_ids st \<and> endpoints_present st \<longrightarrow> ?st' = st)"
    by (rule impI)
  from ns es ids gone kept rest inv' again d' show ?thesis by (intro conjI)
qed

theorem handleDelete_cascade_witness:
  "distinct (map node_id (nodes linked_page))
   \<and> map node_id (nodes (handleDelete True ''node-1'' linked_page)) = [''node-2'']
   \<and> edges (handleDelete True ''node-1'' linked_page) = []
   \<and> edges linked_page = [new_edge link_1_2]
   \<and> endpoints_present linked_page
   \<and> ''node-9'' \<notin> node_ids linked_page
   \<and> handleDelete True ''node-9'' linked_page = linked_page"
proof -
  note d = linked_page_distinct and p = endpoints_present_linked_page
  have a: "''node-9'' \<notin> node_ids linked_page" by (simp add: linked_page_ids)
  from handleDelete_cascade [of "''node-1''" linked_page] d
  have "nodes (handleDelete True ''node-1'' linked_page)
      = filter (\<lambda>v. node_id v \<noteq> ''node-1'') (nodes linked_page)"
    and "edges (handleDelete True ''node-1'' linked_page)
      = filter (\<lambda>e. source e \<noteq> ''node-1'' \<and> target e \<noteq> ''node-1'') (edges linked_page)"
    by blast+
  then have one: "map node_id (nodes (handleDelete True ''node-1'' linked_page)) = [''node-2'']"
    and none: "edges (handleDelete True ''node-1'' linked_page) = []"
    by (simp_all add: linked_page_fields link_1_2_fields initialNodes_def)
  from handleDelete_cascade [of "''node-9''" linked_page] d a p
  have same: "handleDelete True ''node-9'' linked_page = linked_page"
    by blast
  from d one none linked_page_fields(2) p a same show ?thesis
    by (intro conjI)
qed

text \<open>
  C7. When the Delete or Backspace key is down and the selection is not empty, the
  effect keeps the nodes that are not selected and the edges that touch no selected
  node, and empties the selection, in one transition of the state. If every edge
  joined two nodes of the graph before, that is so afterwards: no edge is left
  without an endpoint.
\<close>

theorem delete_key_removes_selection:
  assumes "deleteKey" and "selectedNodes st \<noteq> []"
  shows "nodes (deleteKeyEffect deleteKey st)
           = filter (\<lambda>v. node_id v \<notin> set (selectedNodes st)) (nodes st)
   \<and> edges (deleteKeyEffect deleteKey st)
           = filter (\<lambda>e. source e \<notin> set (selectedNodes st) \<and> target e \<notin> set (selectedNodes st))
               (edges st)
   \<and> selectedNodes (deleteKeyEffect deleteKey st) = []
   \<and> node_ids (deleteKeyEffect deleteKey st) = node_ids st - set (selectedNodes st)
   \<and> (\<forall>e \<in> set (edges (deleteKeyEffect deleteKey st)).
          source e \<notin> set (selectedNodes st) \<and> target e \<notin> set (selectedNodes st))
   \<and> (\<forall>v \<in> set (nodes st). node_id v \<notin> set (selectedNodes st)
          \<longrightarrow> v \<in> set (nodes (deleteKeyEffect deleteKey st)))
   \<and> (\<forall>e \<in> set (edges st). source e \<notin> set (selectedNodes st) \<and> target e \<notin> set (selectedNodes st)
          \<longrightarrow> e \<in> set (edges (deleteKeyEffect deleteKey st)))
   \<and> nodeIdCounter (deleteKeyEffect deleteKey st) = nodeIdCounter st
   \<and> localStorage (deleteKeyEffect deleteKey st) = localStorage st
   \<and> (endpoints_present st \<longrightarrow> endpoints_present (deleteKeyEffect deleteKey st))"
proof -
  let ?st' = "deleteKeyEffect deleteKey st"
  let ?sel = "set (selectedNodes st)"
  have ns: "nodes ?st' = filter (\<lambda>v. node_id v \<notin> ?sel) (nodes st)"
    and es: "edges ?st' = filter (\<lambda>e. source e \<notin> ?sel \<and> target e \<notin> ?sel) (edges st)"
    and rest: "selectedNodes ?st' = []" "nodeIdCounter ?st' = nodeIdCounter st"
      "localStorage ?st' = localStorage st"
    using assms by (simp_all add: deleteKeyEffect_def)
  have ids: "node_ids ?st' = node_ids st - ?sel"
    by (auto simp: node_ids_def ns)
  have inv: "endpoints_present ?st'" if "endpoints_present st"
    using that by (auto simp: endpoints_present_def es ids)
  show ?thesis
    using ns es rest ids inv by simp
qed

theorem delete_key_removes_selection_witness:
  "selectedNodes selected_page = [''node-1'']
   \<and> map node_id (nodes (deleteKeyEffect True selected_page)) = [''node-2'']
   \<and> edges (deleteKeyEffect True selected_page) = []
   \<and> selectedNodes (deleteKeyEffect True selected_page) = []"
proof -
  have "selectedNodes selected_page \<noteq> []" by (simp add: selected_page_fields)
  from delete_key_removes_selection [OF TrueI this] show ?thesis
    by (simp add: selected_page_fields link_1_2_fields initialNodes_def)
qed

subsection \<open>Connecting\<close>

lemma edges_keyed_onConnect: "edges_keyed st \<Longrightarrow> edges_keyed (onConnect c st)"
proof -
  assume k: "edges_keyed st"
  have sub: "set (edges (onConnect c st)) \<subseteq> insert (new_edge c) (set (edges st))"
    unfolding onConnect_def using addEdge_set [of "new_edge c" "edges st"] by simp
  from k have "distinct (map edge_id (edges (onConnect c st)))"
    by (simp add: onConnect_def edges_keyed_def addEdge_distinct)
  moreover have "\<forall>e \<in> set (edges (onConnect c st)). edge_id e = edge_name (source e) (target e)"
    using sub k by (auto simp: edges_keyed_def new_edge_fields)
  ultimately show ?thesis by (simp add: edges_keyed_def)
qed

lemma collision_free_generated:
  assumes "generated_id (source c)" and "\<forall>e \<in> set (edges st). generated_id (source e)"
  shows "collision_free st c"
  unfolding collision_free_def
proof (intro ballI impI)
  fix e
  assume "e \<in> set (edges st)"
    and eq: "edge_name (source e) (target e) = edge_name (source c) (target c)"
  with assms(2) have "generated_id (source e)" by simp
  from this assms(1) eq show "source e = source c \<and> target e = target c"
    by (rule edge_name_inj)
qed

text \<open>
  C2, as the code has it. In a graph whose edge ids are pairwise distinct and
  derived from the edges' endpoints, equal derived ids standing for equal pairs,
  connecting \<open>a\<close> to \<open>b\<close> twice gives the state that connecting them once gives; it
  holds exactly one edge from \<open>a\<close> to \<open>b\<close>, and that edge has the id
  \<^verbatim>\<open>edge-\<close>\<open>a\<close>\<^verbatim>\<open>-\<close>\<open>b\<close> derived from the pair. Neither call gives a value back.
  (\<open>addEdge\<close> is modelled from the specification.)
\<close>

theorem connect_twice:
  assumes keyed: "edges_keyed st" and free: "collision_free st c"
  shows "onConnect c (onConnect c st) = onConnect c st
   \<and> length (filter (\<lambda>e. source e = source c \<and> target e = target c)
               (edges (onConnect c (onConnect c st)))) = 1
   \<and> (\<forall>e \<in> set (edges (onConnect c (onConnect c st))).
         source e = source c \<and> target e = target c
           \<longrightarrow> edge_id e = edge_name (source c) (target c))
   \<and> nodes (onConnect c (onConnect c st)) = nodes st
   \<and> edges_keyed (onConnect c (onConnect c st))
   \<and> onConnect_returns c st = Undefined
   \<and> onConnect_returns c (onConnect c st) = Undefined"
proof -
  let ?st' = "onConnect c st"
  let ?i = "edge_name (source c) (target c)"
  have idem: "onConnect c ?st' = ?st'"
    by (simp add: onConnect_def addEdge_idem)
  have keyed': "edges_keyed ?st'"
    using keyed by (rule edges_keyed_onConnect)
  have ns: "nodes ?st' = nodes st" by (simp add: onConnect_def)
  have sub: "set (edges ?st') \<subseteq> insert (new_edge c) (set (edges st))"
    unfolding onConnect_def using addEdge_set [of "new_edge c" "edges st"] by simp
  have has: "?i \<in> edge_id ` set (edges ?st')"
    using addEdge_has_id [of "new_edge c" "edges st"] by (simp add: onConnect_def new_edge_fields)
  have same: "(source e = source c \<and> target e = target c) = (edge_id e = ?i)"
    if e: "e \<in> set (edges ?st')" for e
  proof
    assume "source e = source c \<and> target e = target c"
    with e keyed' show "edge_id e = ?i" by (simp add: edges_keyed_def)
  next
    assume i: "edge_id e = ?i"
    show "source e = source c \<and> target e = target c"
    proof (cases "e = new_edge c")
      case True
      then show ?thesis by (simp add: new_edge_fields)
    next
      case False
      with e sub have old: "e \<in> set (edges st)" by auto
      with keyed have "edge_id e = edge_name (source e) (target e)"
        by (simp add: edges_keyed_def)
      with i have "edge_name (source e) (target e) = ?i" by simp
      with old free show ?thesis by (simp add: collision_free_def)
    qed
  qed
  then have "filter (\<lambda>e. source e = source c \<and> target e = target c) (edges ?st')
      = filter (\<lambda>e. edge_id e = ?i) (edges ?st')"
    by (intro filter_cong) auto
  moreover from keyed' have "distinct (map edge_id (edges ?st'))"
    by (simp add: edges_keyed_def)
  then have "length (filter (\<lambda>e. edge_id e = ?i) (edges ?st')) = 1"
    using has by (rule one_with_key)
  ultimately have one: "length (filter (\<lambda>e. source e = source c \<and> target e = target c)
      (edges ?st')) = 1" by simp
  from same have derived: "\<forall>e \<in> set (edges ?st').
      source e = source c \<and> target e = target c \<longrightarrow> edge_id e = ?i"
    by blast
  have r: "onConnect_returns c st = Undefined" "onConnect_returns c ?st' = Undefined"
    by (simp_all add: onConnect_returns_def)
  from one derived ns keyed' have
    "length (filter (\<lambda>e. source e = source c \<and> target e = target c)
               (edges (onConnect c ?st'))) = 1"
    "\<forall>e \<in> set (edges (onConnect c ?st')).
         source e = source c \<and> target e = target c \<longrightarrow> edge_id e = ?i"
    "nodes (onConnect c ?st') = nodes st"
    "edges_keyed (onConnect c ?st')"
    by (simp_all only: idem)
  with idem r show ?thesis by (intro conjI)
qed

lemma doubled_page_fields:
  "nodes doubled_page = initialNodes"
  "edges doubled_page = [new_edge link_1_2, (new_edge link_1_2)\<lparr> edge_id := ''edge-copy'' \<rparr>]"
  by (simp_all add: doubled_page_def after_load_def handleLoad_def setBoth_def initial_state_def
      doubled_workflow_def)

theorem connect_twice_witness:
  "edges_keyed linked_page
   \<and> collision_free linked_page link_1_2
   \<and> collision_free linked_page link_7_8
   \<and> edges (onConnect link_1_2 (onConnect link_1_2 linked_page)) = [new_edge link_1_2]
   \<and> length (filter (\<lambda>e. source e = ''node-1'' \<and> target e = ''node-2'')
               (edges (onConnect link_1_2 (onConnect link_1_2 linked_page)))) = 1
   \<and> edges (onConnect link_7_8 (onConnect link_7_8 linked_page))
        = [new_edge link_1_2, new_edge link_7_8]
   \<and> length (filter (\<lambda>e. source e = ''node-7'' \<and> target e = ''node-8'')
               (edges (onConnect link_7_8 (onConnect link_7_8 linked_page)))) = 1
   \<and> edge_id (new_edge link_1_2) = ''edge-node-1-node-2''"
proof -
  have k: "edges_keyed linked_page"
    by (simp add: edges_keyed_def linked_page_fields new_edge_fields)
  have f12: "collision_free linked_page link_1_2"
    by (simp add: collision_free_def linked_page_fields new_edge_fields)
  have f78: "collision_free linked_page link_7_8"
    by (simp add: collision_free_def linked_page_fields link_1_2_fields)
      (simp add: edge_name_def link_7_8_def)
  have s: "source link_1_2 = ''node-1''" "target link_1_2 = ''node-2''"
    "source link_7_8 = ''node-7''" "target link_7_8 = ''node-8''"
    by (simp_all add: link_1_2_def link_7_8_def)
  have e12: "edges (onConnect link_1_2 linked_page) = [new_edge link_1_2]"
    by (simp add: onConnect_def addEdge_def linked_page_fields)
  have e78: "edges (onConnect link_7_8 linked_page) = [new_edge link_1_2, new_edge link_7_8]"
    by (simp add: onConnect_def addEdge_def linked_page_fields link_1_2_fields)
      (simp add: new_edge_def edge_name_def link_7_8_def)
  from connect_twice [OF k f12]
  have i12: "onConnect link_1_2 (onConnect link_1_2 linked_page) = onConnect link_1_2 linked_page"
    and l12: "length (filter (\<lambda>e. source e = source link_1_2 \<and> target e = target link_1_2)
               (edges (onConnect link_1_2 (onConnect link_1_2 linked_page)))) = 1"
    by blast+
  from i12 e12
  have a1: "edges (onConnect link_1_2 (onConnect link_1_2 linked_page)) = [new_edge link_1_2]"
    by simp
  from l12 have a2: "length (filter (\<lambda>e. source e = ''node-1'' \<and> target e = ''node-2'')
               (edges (onConnect link_1_2 (onConnect link_1_2 linked_page)))) = 1"
    by (simp only: s)
  from connect_twice [OF k f78]
  have i78: "onConnect link_7_8 (onConnect link_7_8 linked_page) = onConnect link_7_8 linked_page"
    and l78: "length (filter (\<lambda>e. source e = source link_7_8 \<and> target e = target link_7_8)
               (edges (onConnect link_7_8 (onConnect link_7_8 linked_page)))) = 1"
    by blast+
  from i78 e78
  have b1: "edges (onConnect link_7_8 (onConnect link_7_8 linked_page))
        = [new_edge link_1_2, new_edge link_7_8]"
    by simp
  from l78 have b2: "length (filter (\<lambda>e. source e = ''node-7'' \<and> target e = ''node-8'')
               (edges (onConnect link_7_8 (onConnect link_7_8 linked_page)))) = 1"
    by (simp only: s)
  from k f12 f78 a1 a2 b1 b2 link_1_2_fields(3) show ?thesis by (intro conjI)
qed

theorem onConnect_returns_no_edge:
  "new_edge link_1_2 \<in> set (edges linked_page)
   \<and> onConnect_returns link_1_2 linked_page = Undefined
   \<and> onConnect_returns link_1_2 linked_page \<noteq> Object (new_edge link_1_2)
   \<and> ''node-1'' \<in> node_ids doubled_page
   \<and> ''node-2'' \<in> node_ids doubled_page
   \<and> length (filter (\<lambda>e. source e = ''node-1'' \<and> target e = ''node-2'')
               (edges (onConnect link_1_2 (onConnect link_1_2 doubled_page)))) = 2"
proof -
  have ids: "node_ids doubled_page = {''node-1'', ''node-2''}"
    by (simp add: node_ids_def doubled_page_fields initialNodes_def)
  have "edges (onConnect link_1_2 (onConnect link_1_2 doubled_page)) = edges doubled_page"
    by (simp add: onConnect_def addEdge_def doubled_page_fields)
  then have "length (filter (\<lambda>e. source e = ''node-1'' \<and> target e = ''node-2'')
               (edges (onConnect link_1_2 (onConnect link_1_2 doubled_page)))) = 2"
    by (simp add: doubled_page_fields link_1_2_fields)
  with ids show ?thesis
    by (simp add: linked_page_fields onConnect_returns_def)
qed

text \<open>
  C4, as the code has it. \<^verbatim>\<open>onConnect\<close> neither reads nor changes the node list
  and has no failing outcome: the edge with the derived id is appended unless an
  edge with that id is already there, whether or not the source and the target are
  nodes of the graph.
\<close>

theorem onConnect_unchecked:
  "nodes (onConnect c st) = nodes st
   \<and> edges (onConnect c (st\<lparr> nodes := ns \<rparr>)) = edges (onConnect c st)
   \<and> (edge_name (source c) (target c) \<notin> edge_id ` set (edges st)
        \<longrightarrow> edges (onConnect c st) = edges st @ [new_edge c])
   \<and> (edge_name (source c) (target c) \<in> edge_id ` set (edges st)
        \<longrightarrow> edges (onConnect c st) = edges st)"
  by (simp add: onConnect_def addEdge_def new_edge_fields)

theorem onConnect_unchecked_witness:
  "nodes cleared_page = []
   \<and> edges (onConnect link_1_2 cleared_page) = [new_edge link_1_2]
   \<and> nodes (onConnect link_1_2 cleared_page) = []
   \<and> edges (onConnect link_1_2 linked_page) = [new_edge link_1_2]"
proof -
  have a: "edge_name (source link_1_2) (target link_1_2) \<notin> edge_id ` set (edges cleared_page)"
    by (simp add: cleared_page_fields)
  have b: "edge_name (source link_1_2) (target link_1_2) \<in> edge_id ` set (edges linked_page)"
    by (simp add: linked_page_fields new_edge_fields)
  from a b show ?thesis
    using onConnect_unchecked [of link_1_2 cleared_page]
      onConnect_unchecked [of link_1_2 linked_page]
    by (simp add: cleared_page_fields linked_page_fields)
qed

theorem onConnect_absent_endpoints:
  "''node-7'' \<notin> node_ids fresh_page
   \<and> ''node-8'' \<notin> node_ids fresh_page
   \<and> edges fresh_page = []
   \<and> edges (onConnect link_7_8 fresh_page) = [new_edge link_7_8]
   \<and> source (new_edge link_7_8) = ''node-7''
   \<and> target (new_edge link_7_8) = ''node-8''"
  by (simp add: fresh_page_ids fresh_page_fields onConnect_def addEdge_def new_edge_def
      link_7_8_def)

subsection \<open>Dropping a block\<close>

text \<open>
  C10. A drop whose transfer holds nothing for the format
  \<^verbatim>\<open>'application/reactflow'\<close>, or holds the empty string, leaves the whole state as
  it is: no node is made and the counter does not move.
\<close>

theorem onDrop_without_payload:
  "dataTransfer event ''application/reactflow'' = None
     \<or> dataTransfer event ''application/reactflow'' = Some EmptyText
   \<Longrightarrow> onDrop screenToFlowPosition event st = st"
  by (auto simp: onDrop_def getData_def)

theorem onDrop_without_payload_witness:
  "onDrop (\<lambda>p. p) bare_drop fresh_page = fresh_page
   \<and> onDrop (\<lambda>p. p) blank_drop fresh_page = fresh_page
   \<and> map node_id (nodes (onDrop (\<lambda>p. p) swap_drop fresh_page)) = [''node-1'', ''node-2'', ''node-3'']"
proof -
  have a: "dataTransfer bare_drop ''application/reactflow'' = None"
    by (simp add: bare_drop_def)
  have b: "dataTransfer blank_drop ''application/reactflow'' = Some EmptyText"
    by (simp add: blank_drop_def)
  have c: "map node_id (nodes (onDrop (\<lambda>p. p) swap_drop fresh_page)) = [''node-1'', ''node-2'', ''node-3'']"
    by (simp add: onDrop_def getData_def swap_drop_def onDragStart_def getNodeId_def
        fresh_page_def initial_state_def initialNodes_def node_name_def decimal.simps
        digit_char_def)
  from a b c show ?thesis
    using onDrop_without_payload [of bare_drop "\<lambda>p. p" fresh_page]
      onDrop_without_payload [of blank_drop "\<lambda>p. p" fresh_page]
    by simp
qed

subsection \<open>Persistence\<close>

text \<open>
  C5. Saving, then clearing (whatever the answer to the confirmation), then loading
  succeeds and gives back the nodes of the canvas and the edge list that were
  saved. In a graph whose node ids are pairwise distinct these are the node list
  and the edge list as they were, unchanged and in the same order, hence with the
  same ids and the same number of nodes and of edges.
\<close>

theorem save_clear_load_roundtrip:
  "\<exists>st'. handleLoad (handleClear confirmed (handleSave now st)) = Inr st'
     \<and> nodes st' = getNodes st
     \<and> edges st' = edges st
     \<and> map edge_id (edges st') = map edge_id (edges st)
     \<and> length (edges st') = length (edges st)
     \<and> (distinct (map node_id (nodes st)) \<longrightarrow>
          nodes st' = nodes st
          \<and> map node_id (nodes st') = map node_id (nodes st)
          \<and> length (nodes st') = length (nodes st))"
proof -
  let ?saved = "handleClear confirmed (handleSave now st)"
  have stored: "localStorage ?saved ''workflow''
      = Some (JsonObject \<lparr> wf_nodes = Items (getNodes st), wf_edges = Items (edges st),
                            wf_timestamp = now \<rparr>)"
    by (simp add: handleClear_def handleSave_def getEdges_def)
  then have "handleLoad ?saved = Inr (?saved\<lparr> nodes := getNodes st, edges := edges st \<rparr>)"
    by (simp add: handleLoad_def setBoth_def)
  moreover have "getNodes st = nodes st" if "distinct (map node_id (nodes st))"
    using that by (rule getNodes_distinct)
  ultimately show ?thesis by simp
qed

theorem save_clear_load_roundtrip_witness:
  "distinct (map node_id (nodes linked_page))
   \<and> length (nodes linked_page) = 2
   \<and> length (edges linked_page) = 1
   \<and> (\<exists>st'. handleLoad (handleClear True (handleSave ''2025-01-01T00:00:00.000Z'' linked_page))
                = Inr st'
          \<and> map node_id (nodes st') = [''node-1'', ''node-2'']
          \<and> map edge_id (edges st') = [''edge-node-1-node-2'']
          \<and> length (nodes st') = 2
          \<and> length (edges st') = 1)"
proof -
  from save_clear_load_roundtrip [of True "''2025-01-01T00:00:00.000Z''" linked_page]
    linked_page_distinct
  obtain st' where
    "handleLoad (handleClear True (handleSave ''2025-01-01T00:00:00.000Z'' linked_page)) = Inr st'"
    "nodes st' = nodes linked_page" "edges st' = edges linked_page"
    by blast
  then have "handleLoad (handleClear True (handleSave ''2025-01-01T00:00:00.000Z'' linked_page))
                = Inr st'
          \<and> map node_id (nodes st') = [''node-1'', ''node-2'']
          \<and> map edge_id (edges st') = [''edge-node-1-node-2'']
          \<and> length (nodes st') = 2
          \<and> length (edges st') = 1"
    by (simp add: linked_page_fields link_1_2_fields initialNodes_def)
  then have "\<exists>st'. handleLoad (handleClear True (handleSave ''2025-01-01T00:00:00.000Z'' linked_page))
                = Inr st'
          \<and> map node_id (nodes st') = [''node-1'', ''node-2'']
          \<and> map edge_id (edges st') = [''edge-node-1-node-2'']
          \<and> length (nodes st') = 2
          \<and> length (edges st') = 1"
    by (rule exI)
  moreover have "length (nodes linked_page) = 2" "length (edges linked_page) = 1"
    by (simp_all add: linked_page_fields initialNodes_def)
  ultimately show ?thesis using linked_page_distinct by (intro conjI)
qed

lemma handleLoad_failures:
  "localStorage st ''workflow'' = Some NotJson \<Longrightarrow> handleLoad st = Inl SyntaxError"
  "localStorage st ''workflow'' = Some JsonNull \<Longrightarrow> handleLoad st = Inl TypeError"
  "localStorage st ''workflow'' = Some (JsonObject saved) \<Longrightarrow> wf_nodes saved = Truthy
     \<Longrightarrow> handleLoad st = Inl NotAnArray"
  by (simp_all add: handleLoad_def setBoth_def)

lemma handleLoad_failure_edges:
  "localStorage st ''workflow'' = Some (JsonObject saved) \<Longrightarrow> wf_edges saved = Truthy
     \<Longrightarrow> handleLoad st = Inl NotAnArray"
  by (cases "wf_nodes saved") (simp_all add: handleLoad_def setBoth_def)

lemma page_over_storage: "localStorage (page_over text) ''workflow'' = Some text"
  by (simp add: page_over_def)

text \<open>
  C8, as the code has it. Loading when \<^verbatim>\<open>'workflow'\<close> holds nothing, or the empty
  string, leaves the state as it is, and the call gives no value back. When an
  object is stored neither of whose two collections is a truthy value that is no
  array (or a JSON value that is no object and not \<^verbatim>\<open>null\<close>), the load succeeds: a
  collection that is missing or falsy is loaded as the empty list and a collection
  that is an array is loaded as it is; nothing else of the state changes.
\<close>

theorem handleLoad_defensive:
  "(localStorage st ''workflow'' = None \<or> localStorage st ''workflow'' = Some Blank
      \<longrightarrow> handleLoad st = Inr st)
   \<and> handleLoad_returns st = Undefined
   \<and> (localStorage st ''workflow'' = Some JsonScalar
        \<longrightarrow> handleLoad st = Inr (st\<lparr> nodes := [], edges := [] \<rparr>))
   \<and> (localStorage st ''workflow'' = Some (JsonObject saved)
        \<and> wf_nodes saved \<noteq> Truthy \<and> wf_edges saved \<noteq> Truthy
        \<longrightarrow> (\<exists>st'. handleLoad st = Inr st'
               \<and> (wf_nodes saved = Missing \<or> wf_nodes saved = Falsy \<longrightarrow> nodes st' = [])
               \<and> (wf_edges saved = Missing \<or> wf_edges saved = Falsy \<longrightarrow> edges st' = [])
               \<and> (\<forall>savedNodes. wf_nodes saved = Items savedNodes \<longrightarrow> nodes st' = savedNodes)
               \<and> (\<forall>savedEdges. wf_edges saved = Items savedEdges \<longrightarrow> edges st' = savedEdges)
               \<and> selectedNodes st' = selectedNodes st
               \<and> nodeIdCounter st' = nodeIdCounter st
               \<and> localStorage st' = localStorage st))"
proof -
  have a: "localStorage st ''workflow'' = None \<or> localStorage st ''workflow'' = Some Blank
      \<longrightarrow> handleLoad st = Inr st"
    by (auto simp: handleLoad_def)
  have b: "handleLoad_returns st = Undefined"
    by (simp add: handleLoad_returns_def)
  have c: "localStorage st ''workflow'' = Some JsonScalar
        \<longrightarrow> handleLoad st = Inr (st\<lparr> nodes := [], edges := [] \<rparr>)"
    by (simp add: handleLoad_def setBoth_def)
  have d: "localStorage st ''workflow'' = Some (JsonObject saved)
        \<and> wf_nodes saved \<noteq> Truthy \<and> wf_edges saved \<noteq> Truthy
        \<longrightarrow> (\<exists>st'. handleLoad st = Inr st'
               \<and> (wf_nodes saved = Missing \<or> wf_nodes saved = Falsy \<longrightarrow> nodes st' = [])
               \<and> (wf_edges saved = Missing \<or> wf_edges saved = Falsy \<longrightarrow> edges st' = [])
               \<and> (\<forall>savedNodes. wf_nodes saved = Items savedNodes \<longrightarrow> nodes st' = savedNodes)
               \<and> (\<forall>savedEdges. wf_edges saved = Items savedEdges \<longrightarrow> edges st' = savedEdges)
               \<and> selectedNodes st' = selectedNodes st
               \<and> nodeIdCounter st' = nodeIdCounter st
               \<and> localStorage st' = localStorage st)"
    by (cases "wf_nodes saved"; cases "wf_edges saved")
      (simp_all add: handleLoad_def setBoth_def)
  from a b c d show ?thesis by (intro conjI)
qed

theorem handleLoad_defensive_witness:
  "localStorage linked_page ''workflow'' = None
   \<and> handleLoad linked_page = Inr linked_page
   \<and> handleLoad (page_over Blank) = Inr (page_over Blank)
   \<and> handleLoad (page_over JsonScalar) = Inr (page_over JsonScalar\<lparr> nodes := [], edges := [] \<rparr>)
   \<and> nodes (page_over (JsonObject without_nodes)) \<noteq> []
   \<and> (\<exists>st'. handleLoad (page_over (JsonObject without_nodes)) = Inr st'
          \<and> nodes st' = [] \<and> edges st' = [new_edge link_1_2])
   \<and> edges (page_over (JsonObject without_edges)) \<noteq> []
   \<and> (\<exists>st'. handleLoad (page_over (JsonObject without_edges)) = Inr st'
          \<and> nodes st' = [hd initialNodes] \<and> edges st' = [])"
proof -
  have a: "localStorage linked_page ''workflow'' = None"
    by (simp add: linked_page_fields no_storage_def)
  with handleLoad_defensive [of linked_page]
  have a': "handleLoad linked_page = Inr linked_page" by blast
  from handleLoad_defensive [of "page_over Blank"] page_over_storage [of Blank]
  have b: "handleLoad (page_over Blank) = Inr (page_over Blank)" by blast
  from handleLoad_defensive [of "page_over JsonScalar"] page_over_storage [of JsonScalar]
  have s: "handleLoad (page_over JsonScalar)
      = Inr (page_over JsonScalar\<lparr> nodes := [], edges := [] \<rparr>)" by blast
  have n: "nodes (page_over (JsonObject without_nodes)) \<noteq> []"
    and e: "edges (page_over (JsonObject without_edges)) \<noteq> []"
    by (simp_all add: page_over_def linked_page_fields initialNodes_def)
  have w1: "wf_nodes without_nodes = Missing" "wf_edges without_nodes = Items [new_edge link_1_2]"
    "wf_nodes without_nodes \<noteq> Truthy" "wf_edges without_nodes \<noteq> Truthy"
    by (simp_all add: without_nodes_def)
  have w2: "wf_edges without_edges = Falsy" "wf_nodes without_edges = Items [hd initialNodes]"
    "wf_nodes without_edges \<noteq> Truthy" "wf_edges without_edges \<noteq> Truthy"
    by (simp_all add: without_edges_def)
  from handleLoad_defensive [of "page_over (JsonObject without_nodes)" without_nodes]
    page_over_storage [of "JsonObject without_nodes"] w1
  have c: "\<exists>st'. handleLoad (page_over (JsonObject without_nodes)) = Inr st'
          \<and> nodes st' = [] \<and> edges st' = [new_edge link_1_2]"
    by blast
  from handleLoad_defensive [of "page_over (JsonObject without_edges)" without_edges]
    page_over_storage [of "JsonObject without_edges"] w2
  have d: "\<exists>st'. handleLoad (page_over (JsonObject without_edges)) = Inr st'
          \<and> nodes st' = [hd initialNodes] \<and> edges st' = []"
    by blast
  from a a' b s n c e d show ?thesis by (intro conjI)
qed

theorem handleLoad_fails_or_returns_nothing:
  "localStorage fresh_page ''workflow'' = None
   \<and> handleLoad_returns fresh_page = Undefined
   \<and> handleLoad_returns fresh_page \<noteq> Null
   \<and> handleLoad (page_over JsonNull) = Inl TypeError
   \<and> handleLoad (page_over NotJson) = Inl SyntaxError
   \<and> wf_nodes number_for_nodes = Truthy
   \<and> handleLoad (page_over (JsonObject number_for_nodes)) = Inl NotAnArray"
proof -
  have t: "wf_nodes number_for_nodes = Truthy" by (simp add: number_for_nodes_def)
  show ?thesis
    using handleLoad_failures(1) [OF page_over_storage [of NotJson]]
      handleLoad_failures(2) [OF page_over_storage [of JsonNull]]
      handleLoad_failures(3) [OF page_over_storage [of "JsonObject number_for_nodes"] t] t
    by (simp add: fresh_page_fields no_storage_def handleLoad_returns_def)
qed

subsection \<open>A newly opened page\<close>

text \<open>
  C9, as the code has it. A newly opened page shows the two nodes of
  \<^verbatim>\<open>initialNodes\<close>, with the ids \<^verbatim>\<open>node-1\<close> and \<^verbatim>\<open>node-2\<close>, no edge and no
  selection; the counter stands at 3.
\<close>

theorem initial_graph:
  "nodes (initial_state storage) = initialNodes
   \<and> map node_id (nodes (initial_state storage)) = [''node-1'', ''node-2'']
   \<and> length (nodes (initial_state storage)) = 2
   \<and> edges (initial_state storage) = []
   \<and> selectedNodes (initial_state storage) = []
   \<and> nodeIdCounter (initial_state storage) = 3"
  by (simp add: initial_state_def initialNodes_def)

theorem initial_graph_not_empty:
  "nodes fresh_page \<noteq> [] \<and> length (nodes fresh_page) = 2"
  by (simp add: fresh_page_fields initialNodes_def)

subsection \<open>Fresh ids\<close>

text \<open>
  C3. A node made after a load should get an id that no node of the loaded graph
  has. \<^verbatim>\<open>handleLoad\<close> does not touch \<^verbatim>\<open>nodeIdCounter\<close>: on a newly opened page the
  counter stands at 3, and when the stored workflow already holds \<^verbatim>\<open>node-3\<close> (made
  and saved on an earlier page) the next block dropped after loading it is a second
  \<^verbatim>\<open>node-3\<close>.
\<close>

theorem load_then_drop_repeats_id:
  "map node_id (nodes second_page) = [''node-1'', ''node-2'', ''node-3'']
   \<and> nodeIdCounter second_page = 3
   \<and> map node_id (nodes (onDrop (\<lambda>p. p) swap_drop second_page))
        = [''node-1'', ''node-2'', ''node-3'', ''node-3'']
   \<and> \<not> distinct (map node_id (nodes (onDrop (\<lambda>p. p) swap_drop second_page)))"
proof -
  have "map node_id (nodes (onDrop (\<lambda>p. p) swap_drop second_page))
      = map node_id (nodes second_page) @ [node_name (nodeIdCounter second_page)]"
    by (simp add: onDrop_def swap_drop_data getNodeId_def)
  then have "map node_id (nodes (onDrop (\<lambda>p. p) swap_drop second_page))
      = [''node-1'', ''node-2'', ''node-3'', ''node-3'']"
    by (simp add: second_page_ids second_page_fields(3) node_name_3)
  then show ?thesis
    by (simp add: second_page_ids second_page_fields(3))
qed




end
